theory Spec2Isabelle
  imports Main "HOL-Library.AList"
begin

section \<open>The connection core of the collaboration protocol\<close>

text \<open>
  A shallow embedding of \<^verbatim>\<open>AbstractBroadcastConnection\<close>
  (\<^verbatim>\<open>collaboration-instance.ts\<close>, lines 682 to 922). The class is asynchronous: every
  \<^verbatim>\<open>await\<close> of the source is a point where the method is suspended and anything else may
  run. The model keeps the suspended continuations in the state (\<open>tasks\<close>), and one
  event of the event loop (a call of a method, a message read from the transport, the
  resumption of a continuation, a timer) is one application of \<open>step\<close>.
\<close>

subsection \<open>Messages\<close>

type_synonym val = string
  \<comment> \<open>a parameter or result value, kept opaque\<close>

type_synonym MessageTarget = "string option"

type_synonym AsymmetricKey = string
  \<comment> \<open>the public key of a peer\<close>

datatype msg_id = Num int | Str string
  \<comment> \<open>\<^verbatim>\<open>id: string | number\<close>; the ids that \<^verbatim>\<open>sendRequest\<close> allocates are numbers\<close>

datatype kind = Request | Response | ResponseError | Notification | Broadcast | Error

text \<open>
  The six message variants, with the arguments in the order of the \<^verbatim>\<open>create\<close> calls of the
  source: \<^verbatim>\<open>RequestMessage.create(type, id, origin, target, parameters)\<close>,
  \<^verbatim>\<open>ResponseMessage.create(id, result)\<close>, \<^verbatim>\<open>ResponseErrorMessage.create(id, message)\<close>,
  \<^verbatim>\<open>NotificationMessage.create(type, origin, target, parameters)\<close>,
  \<^verbatim>\<open>BroadcastMessage.create(type, origin, parameters)\<close>. Responses carry an origin too,
  which the relay sets.
\<close>

datatype Message =
    RequestMessage string msg_id string MessageTarget "val list option"
  | ResponseMessage msg_id string val
  | ResponseErrorMessage msg_id string string
  | NotificationMessage string string MessageTarget "val list option"
  | BroadcastMessage string string "val list option"
  | ErrorMessage string string

fun kind_of :: "Message \<Rightarrow> kind" where
  "kind_of (RequestMessage m i orig t ps) = Request"
| "kind_of (ResponseMessage i orig c) = Response"
| "kind_of (ResponseErrorMessage i orig e) = ResponseError"
| "kind_of (NotificationMessage m orig t ps) = Notification"
| "kind_of (BroadcastMessage m orig ps) = Broadcast"
| "kind_of (ErrorMessage orig e) = Error"

fun origin_of :: "Message \<Rightarrow> string" where
  "origin_of (RequestMessage m i orig t ps) = orig"
| "origin_of (ResponseMessage i orig c) = orig"
| "origin_of (ResponseErrorMessage i orig e) = orig"
| "origin_of (NotificationMessage m orig t ps) = orig"
| "origin_of (BroadcastMessage m orig ps) = orig"
| "origin_of (ErrorMessage orig e) = orig"

fun id_of :: "Message \<Rightarrow> msg_id option" where
  "id_of (RequestMessage m i orig t ps) = Some i"
| "id_of (ResponseMessage i orig c) = Some i"
| "id_of (ResponseErrorMessage i orig e) = Some i"
| "id_of (NotificationMessage m orig t ps) = None"
| "id_of (BroadcastMessage m orig ps) = None"
| "id_of (ErrorMessage orig e) = None"

subsection \<open>Encryption\<close>

text \<open>
  Modelled from the spec: the module \<^verbatim>\<open>./encryption\<close> (\<^verbatim>\<open>Encryption.encrypt\<close>,
  \<^verbatim>\<open>Encryption.decrypt\<close>) is imported by the source and is not part of it. The spec, 4.2:
  one symmetric content key \<open>K\<close> per message; the content is encrypted with \<open>K\<close>; for each
  recipient's public key \<open>P\<close>, \<open>K\<close> is sealed under \<open>P\<close>, and the wrap is cached under the
  fingerprint of \<open>P\<close>, a hit (for the same \<open>K\<close>) skipping the asymmetric operation.
  Decryption looks the sealed key up by the recipient's fingerprint, unseals it with the
  private key, caches the unsealed key under the sender, and decrypts. The failures are
  \<open>Unauthenticated\<close>, \<open>NoKeyForMe\<close> and \<open>BadKey\<close>; a seal needs at least one recipient
  (spec 4.4, and the comment in \<^verbatim>\<open>sendBroadcast\<close>). The cryptography is symbolic: a wrap
  is the term \<open>Seal P K\<close>, an encrypted message is the term \<open>Binary wraps K m\<close>, whose
  kind, id and origin are readable and whose content is read by \<open>Encryption_decrypt\<close>
  only.

  Both operations are asynchronous and are given the cache object itself. They look the
  cache up when they are called and store their new entries when they complete, in the
  object they were given: each returns its result together with the entries it is going
  to store.
\<close>

datatype error = Unauthenticated | NoKeyForMe | BadKey | NoRecipients

datatype Wrap = Seal AsymmetricKey string

datatype BinaryMessage =
  Binary (sealedKeys: "(string \<times> Wrap) list") (contentKey: string) (sealed: Message)

record KeyPair =
  publicKey :: string
  privateKey :: string

definition fingerprint :: "AsymmetricKey \<Rightarrow> string" where
  "fingerprint P = P"

definition publicOf :: "string \<Rightarrow> AsymmetricKey" where
  "publicOf priv = ''pub:'' @ priv"

text \<open>
  Modelled from the spec: the sealing of \<open>K\<close> for one recipient and for a list of them. A
  wrap found in the cache for the same \<open>K\<close> is used; otherwise \<open>K\<close> is sealed, and the
  wrap is an entry to store under the fingerprint.
\<close>

definition sealKey :: "string \<Rightarrow> (string \<times> Wrap) list \<Rightarrow> AsymmetricKey \<Rightarrow> Wrap \<times> (string \<times> Wrap) list" where
  "sealKey K cache P =
     (case map_of cache (fingerprint P) of
        Some (Seal P' K') \<Rightarrow>
          if K' = K then (Seal P' K', [])
          else (Seal P K, [(fingerprint P, Seal P K)])
      | None \<Rightarrow> (Seal P K, [(fingerprint P, Seal P K)]))"

fun sealKeys :: "string \<Rightarrow> (string \<times> Wrap) list \<Rightarrow> AsymmetricKey list \<Rightarrow> (string \<times> Wrap) list \<times> (string \<times> Wrap) list" where
  "sealKeys K cache [] = ([], [])"
| "sealKeys K cache (P # Ps) =
     (case sealKey K cache P of (w, es1) \<Rightarrow>
        (case sealKeys K cache Ps of (ws, es2) \<Rightarrow> ((fingerprint P, w) # ws, es1 @ es2)))"

text \<open>
  Modelled from the spec: the entries of a completed operation stored in a cache object,
  a later entry replacing an earlier one under the same key.
\<close>

fun store :: "(string \<times> 'v) list \<Rightarrow> (string \<times> 'v) list \<Rightarrow> (string \<times> 'v) list" where
  "store [] cache = cache"
| "store ((k, v) # es) cache = store es (AList.update k v cache)"

text \<open>
  Modelled from the spec: \<^verbatim>\<open>Encryption.encrypt(message, {symmetricKey, cache},
  ...publicKeys)\<close>, not part of the source. It fails without a recipient; otherwise the
  result carries one sealed copy of the key for each recipient, and the wraps that were
  made are the entries to store.
\<close>

definition Encryption_encrypt ::
  "Message \<Rightarrow> string \<Rightarrow> (string \<times> Wrap) list \<Rightarrow> AsymmetricKey list \<Rightarrow> (error + BinaryMessage) \<times> (string \<times> Wrap) list" where
  "Encryption_encrypt m K cache Ps =
     (if Ps = [] then (Inl NoRecipients, [])
      else (case sealKeys K cache Ps of (ws, es) \<Rightarrow> (Inr (Binary ws K m), es)))"

text \<open>
  Modelled from the spec: \<^verbatim>\<open>Encryption.decrypt(message, {privateKey, cache})\<close>, not part
  of the source. \<open>NoKeyForMe\<close> when no sealed copy is for the recipient, \<open>BadKey\<close> when
  the copy does not unseal, \<open>Unauthenticated\<close> when the key is not the one the content
  was encrypted with; an unsealed key is the entry to store, under the origin of the
  message.
\<close>

definition unseal :: "string \<Rightarrow> Wrap \<Rightarrow> string option" where
  "unseal priv w = (case w of Seal P K \<Rightarrow> if P = publicOf priv then Some K else None)"

definition Encryption_decrypt ::
  "BinaryMessage \<Rightarrow> string \<Rightarrow> (string \<times> string) list \<Rightarrow> (error + Message) \<times> (string \<times> string) list" where
  "Encryption_decrypt b priv cache =
     (case map_of (sealedKeys b) (fingerprint (publicOf priv)) of
        None \<Rightarrow> (Inl NoKeyForMe, [])
      | Some w \<Rightarrow>
          (case map_of cache (origin_of (sealed b)) of
             Some K \<Rightarrow>
               if K = contentKey b then (Inr (sealed b), []) else (Inl Unauthenticated, [])
           | None \<Rightarrow>
               (case unseal priv w of
                  None \<Rightarrow> (Inl BadKey, [])
                | Some K \<Rightarrow>
                    if K = contentKey b
                    then (Inr (sealed b), [(origin_of (sealed b), K)])
                    else (Inl Unauthenticated, [(origin_of (sealed b), K)]))))"

definition String :: "error \<Rightarrow> string" where
  "String e = (case e of Unauthenticated \<Rightarrow> ''Unauthenticated'' | NoKeyForMe \<Rightarrow> ''NoKeyForMe''
                | BadKey \<Rightarrow> ''BadKey'' | NoRecipients \<Rightarrow> ''NoRecipients'')"

text \<open>
  \<^verbatim>\<open>Encoding.encode\<close> and \<^verbatim>\<open>Encoding.decode\<close> (\<^verbatim>\<open>./encoding\<close>, not part of the source)
  are inverse to each other (spec 4.1); the transport of the model carries the encrypted
  message itself.
\<close>

definition Encoding_encode :: "BinaryMessage \<Rightarrow> BinaryMessage" where
  "Encoding_encode b = b"

definition Encoding_decode :: "BinaryMessage \<Rightarrow> BinaryMessage" where
  "Encoding_decode b = b"

subsection \<open>Deferred values, emitters, timers, the transport\<close>

text \<open>
  Modelled from the spec: \<^verbatim>\<open>Deferred\<close> (\<^verbatim>\<open>./utils/promise\<close>) and \<^verbatim>\<open>Emitter\<close>
  (\<^verbatim>\<open>./utils/event\<close>) are imported by the source and are not part of it. A deferred is a
  one-shot completion (spec 9): it is settled once, and a later \<open>resolve\<close> or \<open>reject\<close>
  changes nothing, as for any promise. An emitter is the list of its subscribers, invoked
  in registration order; disposing it clears the subscribers (spec 9).
\<close>

datatype Deferred = Pending | Resolved val | Rejected string

definition Deferred_resolve :: "val \<Rightarrow> Deferred \<Rightarrow> Deferred" where
  "Deferred_resolve v d = (case d of Pending \<Rightarrow> Resolved v | _ \<Rightarrow> d)"

definition Deferred_reject :: "string \<Rightarrow> Deferred \<Rightarrow> Deferred" where
  "Deferred_reject e d = (case d of Pending \<Rightarrow> Rejected e | _ \<Rightarrow> d)"

type_synonym Emitter = "nat list"
  \<comment> \<open>the subscribed listeners; a listener is an opaque callback, named by a number\<close>

definition Emitter_fire :: "Emitter \<Rightarrow> string \<Rightarrow> (nat \<times> string) list" where
  "Emitter_fire e arg = map (\<lambda>l. (l, arg)) e"
  \<comment> \<open>the calls made: each listener with the argument\<close>

definition Emitter_dispose :: "Emitter \<Rightarrow> Emitter" where
  "Emitter_dispose e = []"

text \<open>
  \<^verbatim>\<open>RelayedRequest\<close>: the id, the deferred (its address in the store of deferreds) and
  the \<^verbatim>\<open>dispose\<close> closure, which is determined by the id, the deferred and the timer it
  closes over.
\<close>

record RelayedRequest =
  request_id :: msg_id
  response :: nat
  timeout :: nat

text \<open>
  A timer made by \<^verbatim>\<open>setTimeout(dispose, 60_000)\<close>: when it is due, and the id, the deferred
  and the timer handle its callback closes over.
\<close>

record Timer =
  deadline :: int
  timer_request :: RelayedRequest
  active :: bool

text \<open>
  The transport (\<^verbatim>\<open>./transport\<close>, an interface) is what the connection does to it: the
  messages passed to \<^verbatim>\<open>write\<close>, and the number of calls of \<^verbatim>\<open>dispose\<close>.
\<close>

record MessageTransport =
  written :: "BinaryMessage list"
  disposeCalls :: nat

subsection \<open>Handlers and suspended continuations\<close>

text \<open>
  A handler is a callback \<^verbatim>\<open>(origin, ...parameters) => R | Promise<R>\<close>: it returns a
  value, throws, or returns a promise that rejects. The thrown value is kept as
  \<^verbatim>\<open>String(error)\<close>.
\<close>

datatype outcome = Returns val | Throws string | Rejects string

type_synonym Handler = "string \<Rightarrow> val list \<Rightarrow> outcome"

text \<open>
  A running encryption or decryption holds the cache object it was given (objects are
  told apart by a number) and the entries it stores there when it completes.
\<close>

type_synonym 'v stores = "nat \<times> (string \<times> 'v) list"

datatype task =
    SendRequest_ready string MessageTarget "val list"
    \<comment> \<open>\<^verbatim>\<open>sendRequest\<close> at \<^verbatim>\<open>await this._ready.promise\<close>\<close>
  | SendNotification_ready string MessageTarget "val list"
  | SendBroadcast_ready string "val list"
  | Send_encrypted "error + BinaryMessage" "Wrap stores"
    \<comment> \<open>the three sends at \<^verbatim>\<open>await Encryption.encrypt(...)\<close>, before \<^verbatim>\<open>this.write\<close>\<close>
  | HandleMessage_decrypted BinaryMessage "RelayedRequest option" "error + Message" "string stores"
    \<comment> \<open>\<^verbatim>\<open>handleMessage\<close> at \<^verbatim>\<open>await Encryption.decrypt(...)\<close>, with the request looked up before\<close>
  | Request_handled msg_id string outcome
    \<comment> \<open>the request branch at \<^verbatim>\<open>await handler(...)\<close>\<close>
  | Response_ready msg_id string val
    \<comment> \<open>the request branch at \<^verbatim>\<open>await this._ready.promise\<close>\<close>
  | Response_encrypted msg_id string "error + BinaryMessage" "Wrap stores"
    \<comment> \<open>the request branch at \<^verbatim>\<open>await Encryption.encrypt(responseMessage, ...)\<close>\<close>
  | ResponseError_encrypted "error + BinaryMessage" "Wrap stores"
    \<comment> \<open>the catch branch at \<^verbatim>\<open>await Encryption.encrypt(responseErrorMessage, ...)\<close>\<close>

datatype log =
    NoHandlerRegistered kind string
  | FailedToHandle kind string

subsection \<open>The connection\<close>

text \<open>
  The fields of the class (\<open>ready_deferred\<close> is \<^verbatim>\<open>_ready\<close>; the two caches are objects
  with string keys, kept as lists of key and value, each with the number of the object
  that the field holds: \<^verbatim>\<open>this.encryptionKeyCache = {}\<close> puts a new object in the field,
  and an operation still running on the old one stores its entries there, out of the
  connection's sight), then what the class reads from its
  environment: the three abstract methods \<^verbatim>\<open>getPublicKey\<close>, \<^verbatim>\<open>getPublicKeys\<close>,
  \<^verbatim>\<open>getPublicKeysLength\<close> (a subclass implements them over its peer set), the deferreds
  and timers that \<^verbatim>\<open>sendRequest\<close> creates, the clock (in milliseconds), the suspended
  continuations, the listener calls made by the emitters and the lines of
  \<^verbatim>\<open>console.error\<close>.
\<close>

record Connection =
  messageHandlers :: "string \<rightharpoonup> Handler"
  onErrorEmitter :: Emitter
  onDisconnectEmitter :: Emitter
  onConnectionErrorEmitter :: Emitter
  requestMap :: "msg_id \<rightharpoonup> RelayedRequest"
  requestId :: int
  symKey :: string
  encryptionKeyCache :: "(string \<times> Wrap) list"
  encryptionKeyCacheObject :: nat
  decryptionKeyCache :: "(string \<times> string) list"
  decryptionKeyCacheObject :: nat
  maxCacheSize :: nat
  ready_deferred :: Deferred
  keys :: KeyPair
  transport :: MessageTransport
  getPublicKey :: "string option \<Rightarrow> AsymmetricKey"
  getPublicKeys :: "AsymmetricKey list"
  getPublicKeysLength :: nat
  deferreds :: "Deferred list"
  timers :: "Timer list"
  now :: int
  tasks :: "task list"
  fired :: "(nat \<times> string) list"
  console :: "log list"

text \<open>
  The field initialisers and the constructor, on a connection that knows no peer yet. The
  callbacks that the constructor registers on the transport are events of the event loop
  below.
\<close>

definition new_Connection :: "KeyPair \<Rightarrow> string \<Rightarrow> Connection" where
  "new_Connection ks generatedSymKey =
     \<lparr> messageHandlers = Map.empty,
       onErrorEmitter = [],
       onDisconnectEmitter = [],
       onConnectionErrorEmitter = [],
       requestMap = Map.empty,
       requestId = 1,
       symKey = generatedSymKey,
       encryptionKeyCache = [],
       encryptionKeyCacheObject = 0,
       decryptionKeyCache = [],
       decryptionKeyCacheObject = 0,
       maxCacheSize = 50,
       ready_deferred = Pending,
       keys = ks,
       transport = \<lparr> written = [], disposeCalls = 0 \<rparr>,
       getPublicKey = (\<lambda>t. []),
       getPublicKeys = [],
       getPublicKeysLength = 0,
       deferreds = [],
       timers = [],
       now = 0,
       tasks = [],
       fired = [],
       console = [] \<rparr>"

subsection \<open>Lifecycle and caches\<close>

definition dispose :: "Connection \<Rightarrow> Connection" where
  "dispose s =
     s\<lparr> fired := fired s @ Emitter_fire (onDisconnectEmitter s) [],
        onDisconnectEmitter := Emitter_dispose (onDisconnectEmitter s),
        onErrorEmitter := Emitter_dispose (onErrorEmitter s),
        messageHandlers := Map.empty,
        transport := (transport s)\<lparr>disposeCalls := Suc (disposeCalls (transport s))\<rparr> \<rparr>"

definition ready :: "Connection \<Rightarrow> Connection" where
  "ready s = s\<lparr>ready_deferred := Deferred_resolve [] (ready_deferred s)\<rparr>"

definition Object_keys :: "(string \<times> 'v) list \<Rightarrow> string list" where
  "Object_keys c = remdups (map fst c)"

definition cleanupCaches :: "Connection \<Rightarrow> Connection" where
  "cleanupCaches s =
     (let maxSize = getPublicKeysLength s + maxCacheSize s;
          s1 = (if length (Object_keys (encryptionKeyCache s)) > maxSize
                then s\<lparr>encryptionKeyCache := [],
                       encryptionKeyCacheObject := Suc (encryptionKeyCacheObject s)\<rparr>
                else s)
      in if length (Object_keys (decryptionKeyCache s1)) > maxSize
         then s1\<lparr>decryptionKeyCache := [],
                 decryptionKeyCacheObject := Suc (decryptionKeyCacheObject s1)\<rparr>
         else s1)"

subsection \<open>Helpers of the model\<close>

definition suspend :: "task \<Rightarrow> Connection \<Rightarrow> Connection" where
  "suspend t s = s\<lparr>tasks := tasks s @ [t]\<rparr>"

definition console_error :: "log \<Rightarrow> Connection \<Rightarrow> Connection" where
  "console_error l s = s\<lparr>console := console s @ [l]\<rparr>"

definition resolve_at :: "nat \<Rightarrow> val \<Rightarrow> Connection \<Rightarrow> Connection" where
  "resolve_at a v s =
     (if a < length (deferreds s)
      then s\<lparr>deferreds := (deferreds s)[a := Deferred_resolve v (deferreds s ! a)]\<rparr>
      else s)"

definition reject_at :: "nat \<Rightarrow> string \<Rightarrow> Connection \<Rightarrow> Connection" where
  "reject_at a e s =
     (if a < length (deferreds s)
      then s\<lparr>deferreds := (deferreds s)[a := Deferred_reject e (deferreds s ! a)]\<rparr>
      else s)"

definition clearTimeout :: "nat \<Rightarrow> Connection \<Rightarrow> Connection" where
  "clearTimeout h s =
     (if h < length (timers s)
      then s\<lparr>timers := (timers s)[h := (timers s ! h)\<lparr>active := False\<rparr>]\<rparr>
      else s)"

text \<open>
  The call \<^verbatim>\<open>Encryption.encrypt(message, {symmetricKey: this.symKey, cache:
  this.encryptionKeyCache}, ...publicKeys)\<close>: the operation starts on the object that the
  field holds at the call. When it completes, its entries are stored in that object,
  which is the connection's cache only if the field still holds it; the same for
  \<^verbatim>\<open>Encryption.decrypt\<close>.
\<close>

definition encrypt_with :: "Message \<Rightarrow> AsymmetricKey list \<Rightarrow> Connection \<Rightarrow> (error + BinaryMessage) \<times> Wrap stores" where
  "encrypt_with message publicKeys s =
     (case Encryption_encrypt message (symKey s) (encryptionKeyCache s) publicKeys of
        (encrypted, entries) \<Rightarrow> (encrypted, (encryptionKeyCacheObject s, entries)))"

definition encryption_completed :: "Wrap stores \<Rightarrow> Connection \<Rightarrow> Connection" where
  "encryption_completed w s =
     (if fst w = encryptionKeyCacheObject s
      then s\<lparr>encryptionKeyCache := store (snd w) (encryptionKeyCache s)\<rparr>
      else s)"

definition decryption_completed :: "string stores \<Rightarrow> Connection \<Rightarrow> Connection" where
  "decryption_completed w s =
     (if fst w = decryptionKeyCacheObject s
      then s\<lparr>decryptionKeyCache := store (snd w) (decryptionKeyCache s)\<rparr>
      else s)"

text \<open>
  \<^verbatim>\<open>this.requestId++\<close>: a JavaScript number is a double. The counter starts at 1; on
  the integers from 1 on, \<^verbatim>\<open>n + 1\<close> is exact below \<open>2^53\<close>, and \<open>2^53 + 1\<close> rounds back
  to \<open>2^53\<close>, the value at which the counter stays.
\<close>

definition js_increment :: "int \<Rightarrow> int" where
  "js_increment n = (if n < 2 ^ 53 then n + 1 else n)"

subsection \<open>Writing and registering\<close>

definition write_message :: "BinaryMessage \<Rightarrow> Connection \<Rightarrow> Connection" where
  "write_message message s =
     s\<lparr>transport := (transport s)\<lparr>written := written (transport s) @ [Encoding_encode message]\<rparr>\<rparr>"

definition onRequest :: "string \<Rightarrow> Handler \<Rightarrow> Connection \<Rightarrow> Connection" where
  "onRequest method handler s = s\<lparr>messageHandlers := (messageHandlers s)(method \<mapsto> handler)\<rparr>"

definition onNotification :: "string \<Rightarrow> Handler \<Rightarrow> Connection \<Rightarrow> Connection" where
  "onNotification method handler s = s\<lparr>messageHandlers := (messageHandlers s)(method \<mapsto> handler)\<rparr>"

definition onBroadcast :: "string \<Rightarrow> Handler \<Rightarrow> Connection \<Rightarrow> Connection" where
  "onBroadcast method handler s = s\<lparr>messageHandlers := (messageHandlers s)(method \<mapsto> handler)\<rparr>"

subsection \<open>Sending\<close>

text \<open>
  Each send is suspended at once at \<^verbatim>\<open>await this._ready.promise\<close>; the rest of the method
  is its continuation.
\<close>

definition sendRequest :: "string \<Rightarrow> MessageTarget \<Rightarrow> val list \<Rightarrow> Connection \<Rightarrow> Connection" where
  "sendRequest type target parameters s = suspend (SendRequest_ready type target parameters) s"

text \<open>The \<^verbatim>\<open>dispose\<close> closure of a request, which its timer runs.\<close>

definition RelayedRequest_dispose :: "RelayedRequest \<Rightarrow> Connection \<Rightarrow> Connection" where
  "RelayedRequest_dispose r s =
     (let s1 = s\<lparr>requestMap := (requestMap s)(request_id r := None)\<rparr>;
          s2 = clearTimeout (timeout r) s1
      in reject_at (response r) ''Request timed out'' s2)"

definition sendRequest_resumed :: "string \<Rightarrow> MessageTarget \<Rightarrow> val list \<Rightarrow> Connection \<Rightarrow> Connection" where
  "sendRequest_resumed type target parameters s =
     (let rid = requestId s;
          s1 = s\<lparr>requestId := js_increment (requestId s)\<rparr>;
          deferred = length (deferreds s1);
          s2 = s1\<lparr>deferreds := deferreds s1 @ [Pending]\<rparr>;
          relayedMessage = \<lparr> request_id = Num rid, response = deferred, timeout = length (timers s2) \<rparr>;
          s3 = s2\<lparr>timers := timers s2 @
                 [\<lparr> deadline = now s2 + 60000, timer_request = relayedMessage, active = True \<rparr>]\<rparr>;
          s4 = s3\<lparr>requestMap := (requestMap s3)(Num rid \<mapsto> relayedMessage)\<rparr>;
          message = RequestMessage type (Num rid) [] target (Some parameters)
      in case encrypt_with message [getPublicKey s4 target] s4 of
           (encryptedMessage, w) \<Rightarrow> suspend (Send_encrypted encryptedMessage w) s4)"

definition sendNotification :: "string \<Rightarrow> MessageTarget \<Rightarrow> val list \<Rightarrow> Connection \<Rightarrow> Connection" where
  "sendNotification type target parameters s = suspend (SendNotification_ready type target parameters) s"

definition sendNotification_resumed :: "string \<Rightarrow> MessageTarget \<Rightarrow> val list \<Rightarrow> Connection \<Rightarrow> Connection" where
  "sendNotification_resumed type target parameters s =
     (let message = NotificationMessage type [] target (Some parameters)
      in case encrypt_with message [getPublicKey s target] s of
           (encryptedMessage, w) \<Rightarrow> suspend (Send_encrypted encryptedMessage w) s)"

definition sendBroadcast :: "string \<Rightarrow> val list \<Rightarrow> Connection \<Rightarrow> Connection" where
  "sendBroadcast type parameters s = suspend (SendBroadcast_ready type parameters) s"

definition sendBroadcast_resumed :: "string \<Rightarrow> val list \<Rightarrow> Connection \<Rightarrow> Connection" where
  "sendBroadcast_resumed type parameters s =
     (let message = BroadcastMessage type [] (Some parameters);
          publicKeys = getPublicKeys s
      in if length publicKeys > 0
         then (case encrypt_with message publicKeys s of
                 (encryptedMessage, w) \<Rightarrow> suspend (Send_encrypted encryptedMessage w) s)
         else s)"

text \<open>
  After \<^verbatim>\<open>await Encryption.encrypt(...)\<close>: the message is written; when the encryption
  failed, the promise of the call rejects and the connection is left as it is.
\<close>

definition send_encrypted :: "error + BinaryMessage \<Rightarrow> Connection \<Rightarrow> Connection" where
  "send_encrypted encryptedMessage s =
     (case encryptedMessage of Inr b \<Rightarrow> write_message b s | Inl err \<Rightarrow> s)"

subsection \<open>Receiving\<close>

text \<open>
  \<^verbatim>\<open>handleMessage\<close> up to its \<^verbatim>\<open>await Encryption.decrypt(...)\<close>: the caches are cleaned,
  the message is decoded, the response branches look the request up, and the decryption
  is started on the decryption cache. The transport does not wait for \<^verbatim>\<open>handleMessage\<close>:
  the next message can be read while this decryption is running.
\<close>

definition lookup_request :: "BinaryMessage \<Rightarrow> Connection \<Rightarrow> RelayedRequest option" where
  "lookup_request message s =
     (case sealed message of
        ResponseMessage i orig c \<Rightarrow> requestMap s i
      | ResponseErrorMessage i orig e \<Rightarrow> requestMap s i
      | _ \<Rightarrow> None)"

definition handleMessage :: "BinaryMessage \<Rightarrow> Connection \<Rightarrow> Connection" where
  "handleMessage data s =
     (let s1 = cleanupCaches s;
          message = Encoding_decode data;
          request = lookup_request message s1
      in case Encryption_decrypt message (privateKey (keys s1)) (decryptionKeyCache s1) of
           (decrypted, entries) \<Rightarrow>
             suspend (HandleMessage_decrypted message request decrypted
                        (decryptionKeyCacheObject s1, entries)) s1)"

text \<open>
  The catch branch of the request branch: a \<^verbatim>\<open>ResponseError\<close> is made, encrypted for the
  origin, and (after the \<^verbatim>\<open>await\<close>) written. It does not await the ready barrier.
\<close>

definition respond_error :: "msg_id \<Rightarrow> string \<Rightarrow> string \<Rightarrow> Connection \<Rightarrow> Connection" where
  "respond_error i orig e s =
     (let responseErrorMessage = ResponseErrorMessage i [] e;
          publicKey = getPublicKey s (Some orig)
      in case encrypt_with responseErrorMessage [publicKey] s of
           (encryptedResponseErrorMessage, w) \<Rightarrow>
             suspend (ResponseError_encrypted encryptedResponseErrorMessage w) s)"

text \<open>
  \<^verbatim>\<open>handleMessage\<close> after the decryption. The decrypted message has the kind, the id and
  the origin of the message it was read from, so the branch is the one that the kind of
  the message selects. A failed decryption is the \<^verbatim>\<open>catch\<close> of that branch: a line on
  the console, and in the two response branches the rejection of the request found.
\<close>

fun handleMessage_decrypted ::
  "BinaryMessage \<Rightarrow> RelayedRequest option \<Rightarrow> error + Message \<Rightarrow> Connection \<Rightarrow> Connection" where
  "handleMessage_decrypted message request (Inr (ResponseMessage i orig c)) s =
     (case request of Some r \<Rightarrow> resolve_at (response r) c s | None \<Rightarrow> s)"
| "handleMessage_decrypted message request (Inr (ResponseErrorMessage i orig e)) s =
     (case request of Some r \<Rightarrow> reject_at (response r) e s | None \<Rightarrow> s)"
| "handleMessage_decrypted message request (Inr (RequestMessage m i orig t ps)) s =
     (case messageHandlers s m of
        None \<Rightarrow> console_error (NoHandlerRegistered Request m) s
      | Some handler \<Rightarrow>
          suspend (Request_handled i orig (handler orig (case ps of None \<Rightarrow> [] | Some xs \<Rightarrow> xs))) s)"
| "handleMessage_decrypted message request (Inr (NotificationMessage m orig t ps)) s =
     (case messageHandlers s m of
        None \<Rightarrow> console_error (NoHandlerRegistered Notification m) s
      | Some handler \<Rightarrow>
          (case handler orig (case ps of None \<Rightarrow> [] | Some xs \<Rightarrow> xs) of
             Throws e \<Rightarrow> console_error (FailedToHandle Notification e) s
           | _ \<Rightarrow> s))"
| "handleMessage_decrypted message request (Inr (BroadcastMessage m orig ps)) s =
     (case messageHandlers s m of
        None \<Rightarrow> console_error (NoHandlerRegistered Broadcast m) s
      | Some handler \<Rightarrow>
          (case handler orig (case ps of None \<Rightarrow> [] | Some xs \<Rightarrow> xs) of
             Throws e \<Rightarrow> console_error (FailedToHandle Broadcast e) s
           | _ \<Rightarrow> s))"
| "handleMessage_decrypted message request (Inr (ErrorMessage orig e)) s =
     s\<lparr>fired := fired s @ Emitter_fire (onErrorEmitter s) e\<rparr>"
| "handleMessage_decrypted message request (Inl err) s =
     (let k = kind_of (sealed message);
          s1 = console_error (FailedToHandle k (String err)) s
      in if k = Response \<or> k = ResponseError
         then (case request of Some r \<Rightarrow> reject_at (response r) (String err) s1 | None \<Rightarrow> s1)
         else s1)"

text \<open>
  The request branch after \<^verbatim>\<open>await handler(...)\<close>: a result goes on to
  \<^verbatim>\<open>await this._ready.promise\<close>, a failure to the catch branch.
\<close>

fun request_handled :: "msg_id \<Rightarrow> string \<Rightarrow> outcome \<Rightarrow> Connection \<Rightarrow> Connection" where
  "request_handled i orig (Returns result) s = suspend (Response_ready i orig result) s"
| "request_handled i orig (Throws e) s = respond_error i orig e s"
| "request_handled i orig (Rejects e) s = respond_error i orig e s"

definition response_ready :: "msg_id \<Rightarrow> string \<Rightarrow> val \<Rightarrow> Connection \<Rightarrow> Connection" where
  "response_ready i orig result s =
     (let responseMessage = ResponseMessage i [] result;
          publicKey = getPublicKey s (Some orig)
      in case encrypt_with responseMessage [publicKey] s of
           (encryptedResponseMessage, w) \<Rightarrow>
             suspend (Response_encrypted i orig encryptedResponseMessage w) s)"

definition response_encrypted :: "msg_id \<Rightarrow> string \<Rightarrow> error + BinaryMessage \<Rightarrow> Connection \<Rightarrow> Connection" where
  "response_encrypted i orig encryptedResponseMessage s =
     (case encryptedResponseMessage of
        Inr b \<Rightarrow> write_message b s
      | Inl err \<Rightarrow> respond_error i orig (String err) s)"

definition responseError_encrypted :: "error + BinaryMessage \<Rightarrow> Connection \<Rightarrow> Connection" where
  "responseError_encrypted encryptedResponseErrorMessage s =
     (case encryptedResponseErrorMessage of
        Inr b \<Rightarrow> write_message b s
      | Inl err \<Rightarrow> console_error (FailedToHandle Request (String err)) s)"

subsection \<open>The event loop\<close>

text \<open>
  A continuation that awaits the ready barrier can run once \<^verbatim>\<open>_ready\<close> is resolved; the
  others whenever the event loop picks them.
\<close>

fun enabled :: "task \<Rightarrow> Connection \<Rightarrow> bool" where
  "enabled (SendRequest_ready type target ps) s = (ready_deferred s \<noteq> Pending)"
| "enabled (SendNotification_ready type target ps) s = (ready_deferred s \<noteq> Pending)"
| "enabled (SendBroadcast_ready type ps) s = (ready_deferred s \<noteq> Pending)"
| "enabled (Response_ready i orig result) s = (ready_deferred s \<noteq> Pending)"
| "enabled t s = True"

fun continue :: "task \<Rightarrow> Connection \<Rightarrow> Connection" where
  "continue (SendRequest_ready type target ps) s = sendRequest_resumed type target ps s"
| "continue (SendNotification_ready type target ps) s = sendNotification_resumed type target ps s"
| "continue (SendBroadcast_ready type ps) s = sendBroadcast_resumed type ps s"
| "continue (Send_encrypted encryptedMessage w) s =
     send_encrypted encryptedMessage (encryption_completed w s)"
| "continue (HandleMessage_decrypted message request decrypted w) s =
     handleMessage_decrypted message request decrypted (decryption_completed w s)"
| "continue (Request_handled i orig out) s = request_handled i orig out s"
| "continue (Response_ready i orig result) s = response_ready i orig result s"
| "continue (Response_encrypted i orig encrypted w) s =
     response_encrypted i orig encrypted (encryption_completed w s)"
| "continue (ResponseError_encrypted encrypted w) s =
     responseError_encrypted encrypted (encryption_completed w s)"

definition resume :: "nat \<Rightarrow> Connection \<Rightarrow> Connection" where
  "resume n s =
     (if n < length (tasks s) \<and> enabled (tasks s ! n) s
      then continue (tasks s ! n) (s\<lparr>tasks := take n (tasks s) @ drop (Suc n) (tasks s)\<rparr>)
      else s)"

text \<open>A timer runs its callback once, when it is due and has not been cleared.\<close>

definition timer_fires :: "nat \<Rightarrow> Connection \<Rightarrow> Connection" where
  "timer_fires h s =
     (if h < length (timers s) \<and> active (timers s ! h) \<and> deadline (timers s ! h) \<le> now s
      then RelayedRequest_dispose (timer_request (timers s ! h))
             (s\<lparr>timers := (timers s)[h := (timers s ! h)\<lparr>active := False\<rparr>]\<rparr>)
      else s)"

text \<open>
  The events: the calls of the public methods, the three callbacks that the constructor
  registers on the transport (\<^verbatim>\<open>read\<close>, \<^verbatim>\<open>onDisconnect\<close>, \<^verbatim>\<open>onError\<close>), the resumption of
  the \<open>n\<close>-th suspended continuation, a timer, the passing of time, and a change of
  what the subclass answers for the peers.
\<close>

datatype event =
    Call_onRequest string Handler
  | Call_onNotification string Handler
  | Call_onBroadcast string Handler
  | Call_onError nat
  | Call_onDisconnect nat
  | Call_onConnectionError nat
  | Call_sendRequest string MessageTarget "val list"
  | Call_sendNotification string MessageTarget "val list"
  | Call_sendBroadcast string "val list"
  | Call_ready
  | Call_dispose
  | Transport_read BinaryMessage
  | Transport_onDisconnect
  | Transport_onError string
  | Resume nat
  | Timer_due nat
  | Elapse int
  | Peers "string option \<Rightarrow> AsymmetricKey" "AsymmetricKey list" nat

fun step :: "event \<Rightarrow> Connection \<Rightarrow> Connection" where
  "step (Call_onRequest m h) s = onRequest m h s"
| "step (Call_onNotification m h) s = onNotification m h s"
| "step (Call_onBroadcast m h) s = onBroadcast m h s"
| "step (Call_onError l) s = s\<lparr>onErrorEmitter := onErrorEmitter s @ [l]\<rparr>"
| "step (Call_onDisconnect l) s = s\<lparr>onDisconnectEmitter := onDisconnectEmitter s @ [l]\<rparr>"
| "step (Call_onConnectionError l) s = s\<lparr>onConnectionErrorEmitter := onConnectionErrorEmitter s @ [l]\<rparr>"
| "step (Call_sendRequest type target ps) s = sendRequest type target ps s"
| "step (Call_sendNotification type target ps) s = sendNotification type target ps s"
| "step (Call_sendBroadcast type ps) s = sendBroadcast type ps s"
| "step Call_ready s = ready s"
| "step Call_dispose s = dispose s"
| "step (Transport_read data) s = handleMessage data s"
| "step Transport_onDisconnect s = dispose s"
| "step (Transport_onError message) s =
     dispose (s\<lparr>fired := fired s @ Emitter_fire (onConnectionErrorEmitter s) message\<rparr>)"
| "step (Resume n) s = resume n s"
| "step (Timer_due h) s = timer_fires h s"
| "step (Elapse d) s = s\<lparr>now := now s + max 0 d\<rparr>"
| "step (Peers f ks n) s = s\<lparr>getPublicKey := f, getPublicKeys := ks, getPublicKeysLength := n\<rparr>"

definition run :: "event list \<Rightarrow> Connection \<Rightarrow> Connection" where
  "run es s = fold step es s"

subsection \<open>Examples of the environment\<close>

text \<open>
  Concrete callbacks, keys and messages for the runs evaluated below: a
  \<^verbatim>\<open>getPublicKey\<close> of a subclass, a handler that throws, one that returns, and an
  \<^verbatim>\<open>Error\<close> message from the peer named by \<open>n\<close> letters, sealed for the key pair
  \<open>alice\<close>.
\<close>

definition alice :: KeyPair where
  "alice = \<lparr> publicKey = ''pub:a'', privateKey = ''a'' \<rparr>"

definition key_of_peer :: "string option \<Rightarrow> AsymmetricKey" where
  "key_of_peer target = (case target of None \<Rightarrow> ''pub:server'' | Some p \<Rightarrow> ''pub:'' @ p)"

definition failing_handler :: Handler where
  "failing_handler origin parameters = Throws ''Error: refused''"

definition echo_handler :: Handler where
  "echo_handler origin parameters = Returns (concat parameters)"

definition other_handler :: Handler where
  "other_handler origin parameters = Returns ''other''"

definition error_from :: "nat \<Rightarrow> BinaryMessage" where
  "error_from n =
     Binary [(''pub:a'', Seal ''pub:a'' ''K1'')] ''K1'' (ErrorMessage (replicate n CHR ''p'') ''e'')"

definition receive_error :: "nat \<Rightarrow> event list" where
  "receive_error n = [Transport_read (error_from n), Resume 0]"
  \<comment> \<open>one message on an idle connection: the read, and the decryption completed\<close>

definition request_to_alice :: "string \<Rightarrow> BinaryMessage" where
  "request_to_alice m =
     Binary [(''pub:a'', Seal ''pub:a'' ''K1'')] ''K1''
       (RequestMessage m (Num 7) ''bob'' (Some ''alice'') (Some [''x'']))"


definition request_round :: "event list" where
  "request_round = [Call_sendRequest ''open'' None [], Resume 0, Resume 0]"
  \<comment> \<open>one request on an idle connection: the call, its continuation, the write\<close>


subsection \<open>What is observed of a run\<close>

text \<open>
  The ids that \<^verbatim>\<open>sendRequest\<close> has allocated, in the order of allocation: each allocation
  sets one timer, whose callback closes over the id.
\<close>

definition allocated_ids :: "Connection \<Rightarrow> msg_id list" where
  "allocated_ids s = map (\<lambda>t. request_id (timer_request t)) (timers s)"

text \<open>
  The counter is within the range of the exact integers, and as long as it has not
  reached \<open>2^53\<close> the ids allocated are \<open>1, 2, \<dots>\<close> up to the counter, in this order.
\<close>

definition ids_in_order :: "Connection \<Rightarrow> bool" where
  "ids_in_order s =
     (1 \<le> requestId s \<and> requestId s \<le> 2 ^ 53 \<and>
      (requestId s < 2 ^ 53 \<longrightarrow> allocated_ids s = map Num [1..requestId s - 1]))"





section \<open>Properties\<close>

text \<open>The definitions of the methods and of their continuations, for unfolding.\<close>

lemmas op_defs = suspend_def console_error_def resolve_at_def reject_at_def clearTimeout_def
  encrypt_with_def encryption_completed_def decryption_completed_def write_message_def cleanupCaches_def dispose_def ready_def
  onRequest_def onNotification_def onBroadcast_def sendRequest_def sendNotification_def sendBroadcast_def
  sendNotification_resumed_def sendBroadcast_resumed_def send_encrypted_def
  handleMessage_def respond_error_def response_ready_def response_encrypted_def responseError_encrypted_def
  RelayedRequest_dispose_def timer_fires_def Encoding_encode_def Encoding_decode_def

subsection \<open>Registering handlers\<close>

text \<open>
  Claim C9. \<^verbatim>\<open>onRequest\<close>, \<^verbatim>\<open>onNotification\<close> and \<^verbatim>\<open>onBroadcast\<close> write into the one map
  \<open>messageHandlers\<close>, keyed by the method: registering a handler for a method through
  any of the three replaces the handler registered before for that method through any
  of the three, and an inbound request for the method is then given to the later
  handler, whichever operation registered it.
\<close>

theorem C9_one_shared_handler_map:
  assumes "r1 \<in> {onRequest, onNotification, onBroadcast}"
      and "r2 \<in> {onRequest, onNotification, onBroadcast}"
  shows "messageHandlers (r2 m h2 (r1 m h1 s)) = (messageHandlers s)(m \<mapsto> h2) \<and>
         handleMessage_decrypted b req (Inr (RequestMessage m i orig t ps)) (r2 m h2 (r1 m h1 s)) =
           suspend (Request_handled i orig (h2 orig (case ps of None \<Rightarrow> [] | Some xs \<Rightarrow> xs)))
             (r2 m h2 (r1 m h1 s))"
  using assms by (auto simp: onRequest_def onNotification_def onBroadcast_def)

theorem C9_one_shared_handler_map_witness:
  "onRequest \<in> {onRequest, onNotification, onBroadcast} \<and>
   onNotification \<in> {onRequest, onNotification, onBroadcast} \<and>
   messageHandlers (onNotification ''open'' other_handler
                     (onRequest ''open'' echo_handler (new_Connection alice ''K''))) ''open''
     = Some other_handler \<and>
   tasks (run [Call_onRequest ''open'' echo_handler, Call_onNotification ''open'' other_handler,
               Transport_read (request_to_alice ''open''), Resume 0] (new_Connection alice ''K''))
     = [Request_handled (Num 7) ''bob'' (Returns ''other'')]"
proof -
  have "tasks (run [Call_onRequest ''open'' echo_handler, Call_onNotification ''open'' other_handler,
               Transport_read (request_to_alice ''open''), Resume 0] (new_Connection alice ''K''))
     = [Request_handled (Num 7) ''bob'' (Returns ''other'')]"
    by code_simp
  then show ?thesis
    using C9_one_shared_handler_map [of onRequest onNotification "''open''" other_handler echo_handler
      "new_Connection alice ''K''"]
    by simp
qed

subsection \<open>Disposing\<close>

text \<open>
  Claim C1, as the source has it. \<^verbatim>\<open>dispose()\<close> fires \<^verbatim>\<open>onDisconnect\<close>, disposes that
  emitter and the one of \<^verbatim>\<open>onError\<close>, clears the handler registry and calls
  \<^verbatim>\<open>transport.dispose()\<close>. It does not touch the request map: the pending outbound
  requests are not rejected, their deferreds stay as they are and their timers keep
  running (a timer that fires after the disposal does what it does without it). The
  method has no guard: a second call fires no listener and changes nothing in the
  connection, and it calls \<^verbatim>\<open>transport.dispose()\<close> a second time.
\<close>

theorem C1_dispose_leaves_requests:
  "fired (dispose s) = fired s @ Emitter_fire (onDisconnectEmitter s) [] \<and>
   onDisconnectEmitter (dispose s) = [] \<and>
   onErrorEmitter (dispose s) = [] \<and>
   messageHandlers (dispose s) = Map.empty \<and>
   disposeCalls (transport (dispose s)) = Suc (disposeCalls (transport s)) \<and>
   requestMap (dispose s) = requestMap s \<and>
   deferreds (dispose s) = deferreds s \<and>
   timers (dispose s) = timers s \<and>
   timer_fires h (dispose s) = dispose (timer_fires h s) \<and>
   dispose (dispose s) =
     (dispose s)\<lparr>transport := (transport (dispose s))\<lparr>disposeCalls := Suc (Suc (disposeCalls (transport s)))\<rparr>\<rparr>"
  by (simp add: dispose_def Emitter_fire_def Emitter_dispose_def timer_fires_def
        RelayedRequest_dispose_def clearTimeout_def reject_at_def Let_def)

text \<open>
  The claim as it was stated, that \<^verbatim>\<open>dispose()\<close> rejects every pending request and that a
  second call has no effect, fails: a request is sent on a ready connection, the
  connection is disposed twice, and the request is still in the map with its deferred
  pending, while the transport has been disposed twice.
\<close>

theorem C1_pending_request_survives_dispose:
  "requestMap (run [Call_ready, Call_sendRequest ''open'' None [], Resume 0, Resume 0, Call_dispose]
                (new_Connection alice ''K'')) (Num 1)
     = Some \<lparr> request_id = Num 1, response = 0, timeout = 0 \<rparr> \<and>
   deferreds (run [Call_ready, Call_sendRequest ''open'' None [], Resume 0, Resume 0, Call_dispose]
                (new_Connection alice ''K'')) = [Pending] \<and>
   disposeCalls (transport (run [Call_ready, Call_sendRequest ''open'' None [], Resume 0, Resume 0, Call_dispose]
                (new_Connection alice ''K''))) = 1 \<and>
   deferreds (run [Call_ready, Call_sendRequest ''open'' None [], Resume 0, Resume 0, Call_dispose, Call_dispose]
                (new_Connection alice ''K'')) = [Pending] \<and>
   disposeCalls (transport (run [Call_ready, Call_sendRequest ''open'' None [], Resume 0, Resume 0, Call_dispose, Call_dispose]
                (new_Connection alice ''K''))) = 2"
  by code_simp

subsection \<open>Requests without a handler\<close>

text \<open>
  Claim C6. When the continuation of \<^verbatim>\<open>handleMessage\<close> holds a decrypted request whose
  method has no registered handler, it writes a line to the console and returns: nothing
  is written to the transport, and no continuation is left that could write a
  \<^verbatim>\<open>Response\<close> or a \<^verbatim>\<open>ResponseError\<close> later.
\<close>

theorem C6_unhandled_request_gets_no_reply:
  assumes "n < length (tasks s)"
      and "tasks s ! n = HandleMessage_decrypted b req (Inr (RequestMessage m i orig t ps)) w"
      and "messageHandlers s m = None"
  shows "transport (resume n s) = transport s \<and>
         tasks (resume n s) = take n (tasks s) @ drop (Suc n) (tasks s) \<and>
         console (resume n s) = console s @ [NoHandlerRegistered Request m]"
  using assms by (simp add: resume_def console_error_def decryption_completed_def)

theorem C6_unhandled_request_gets_no_reply_witness:
  "written (transport (run [Call_ready, Transport_read (request_to_alice ''open''), Resume 0]
                         (new_Connection alice ''K''))) = [] \<and>
   tasks (run [Call_ready, Transport_read (request_to_alice ''open''), Resume 0]
            (new_Connection alice ''K'')) = [] \<and>
   console (run [Call_ready, Transport_read (request_to_alice ''open''), Resume 0]
              (new_Connection alice ''K'')) = [NoHandlerRegistered Request ''open'']"
proof -
  let ?s = "run [Call_ready, Transport_read (request_to_alice ''open'')] (new_Connection alice ''K'')"
  have t: "tasks ?s = [HandleMessage_decrypted (request_to_alice ''open'') None
             (Inr (RequestMessage ''open'' (Num 7) ''bob'' (Some ''alice'') (Some [''x''])))
             (0, [(''bob'', ''K1'')])]"
    by code_simp
  have h: "messageHandlers ?s ''open'' = None"
    by code_simp
  have w: "written (transport ?s) = []" "console ?s = []"
    by code_simp+
  have r: "run [Call_ready, Transport_read (request_to_alice ''open''), Resume 0] (new_Connection alice ''K'')
           = resume 0 ?s"
    by (simp add: run_def)
  show ?thesis
    unfolding r
    using C6_unhandled_request_gets_no_reply [of 0 ?s "request_to_alice ''open''" None "''open''" "Num 7"
        "''bob''" "Some ''alice''" "Some [''x'']" "(0, [(''bob'', ''K1'')])"] t h w
    by simp
qed

subsection \<open>Broadcasts and sealed keys\<close>












subsection \<open>Request ids\<close>

text \<open>
  Only the continuation of \<^verbatim>\<open>sendRequest\<close> reads and advances the counter, in one step of
  the event loop; every other step leaves the counter and the allocated ids alone.
\<close>

lemma ids_update_active:
  "map (\<lambda>t. request_id (timer_request t)) (ts[h := (ts ! h)\<lparr>active := False\<rparr>]) =
   map (\<lambda>t. request_id (timer_request t)) ts"
  by (cases "h < length ts") (simp_all add: map_update list_update_same_conv list_update_beyond)

lemma ids_handleMessage_decrypted:
  "requestId (handleMessage_decrypted b req d s) = requestId s"
  "allocated_ids (handleMessage_decrypted b req d s) = allocated_ids s"
  by (induction b req d s rule: handleMessage_decrypted.induct)
     (auto simp: op_defs allocated_ids_def Let_def split: option.splits outcome.splits prod.splits)

lemma ids_request_handled:
  "requestId (request_handled i orig out s) = requestId s"
  "allocated_ids (request_handled i orig out s) = allocated_ids s"
  by (cases out; simp add: op_defs allocated_ids_def Let_def split: prod.splits)+

lemma ids_continue:
  assumes "\<And>ty tg ps. t \<noteq> SendRequest_ready ty tg ps"
  shows "requestId (continue t s) = requestId s" "allocated_ids (continue t s) = allocated_ids s"
  using assms
  by (cases t; simp add: ids_handleMessage_decrypted ids_request_handled;
      simp add: op_defs allocated_ids_def Let_def split: prod.splits sum.splits)+

lemma ids_sendRequest_resumed:
  "requestId (sendRequest_resumed ty tg ps s) = js_increment (requestId s)"
  "allocated_ids (sendRequest_resumed ty tg ps s) = allocated_ids s @ [Num (requestId s)]"
  by (simp_all add: sendRequest_resumed_def op_defs allocated_ids_def Let_def split: prod.splits)

lemma upto_snoc: "1 \<le> n \<Longrightarrow> [1..n] = [1..n - 1] @ [n]" for n :: int
  by (simp add: upto_rec2)

lemma ids_in_order_continue:
  assumes "ids_in_order s"
  shows "ids_in_order (continue t s)"
proof (cases "\<exists>ty tg ps. t = SendRequest_ready ty tg ps")
  case True
  then obtain ty tg ps where t: "t = SendRequest_ready ty tg ps" by blast
  from assms show ?thesis
    unfolding t ids_in_order_def
    by (auto simp: ids_sendRequest_resumed js_increment_def upto_snoc)
next
  case False
  with assms show ?thesis by (simp add: ids_in_order_def ids_continue)
qed

lemma ids_in_order_tasks: "ids_in_order (s\<lparr>tasks := ts\<rparr>) = ids_in_order s"
  by (simp add: ids_in_order_def allocated_ids_def)

lemma ids_in_order_step:
  assumes "ids_in_order s"
  shows "ids_in_order (step e s)"
proof (cases e)
  case (Resume n)
  with assms show ?thesis
    by (simp add: resume_def ids_in_order_continue ids_in_order_tasks)
next
  case (Timer_due h)
  with assms show ?thesis
    by (simp add: ids_in_order_def allocated_ids_def op_defs Let_def ids_update_active)
qed (use assms in \<open>auto simp: ids_in_order_def allocated_ids_def op_defs Let_def split: prod.splits\<close>)

lemma ids_in_order_run: "ids_in_order s \<Longrightarrow> ids_in_order (run es s)"
  unfolding run_def by (induction es arbitrary: s) (simp_all add: ids_in_order_step)

lemma ids_in_order_new: "ids_in_order (new_Connection ks K)"
  by (simp add: ids_in_order_def new_Connection_def allocated_ids_def)

text \<open>
  One request on an idle, ready connection, and any number of them; the counter after
  \<open>k\<close> increments from 1.
\<close>

lemma run_append: "run (es @ fs) s = run fs (run es s)"
  by (simp add: run_def)

lemma request_round_effect:
  assumes "tasks s = []" and "ready_deferred s \<noteq> Pending"
  shows "tasks (run request_round s) = [] \<and> ready_deferred (run request_round s) = ready_deferred s \<and>
         requestId (run request_round s) = js_increment (requestId s) \<and>
         allocated_ids (run request_round s) = allocated_ids s @ [Num (requestId s)]"
  using assms
  by (auto simp: run_def request_round_def resume_def sendRequest_resumed_def op_defs allocated_ids_def
        Let_def Encryption_encrypt_def split: prod.splits sum.splits)

lemma concat_replicate_Suc: "concat (replicate (Suc n) xs) = concat (replicate n xs) @ xs"
  by (induction n) simp_all

lemma request_rounds_effect:
  assumes "tasks s = []" and "ready_deferred s \<noteq> Pending"
  shows "tasks (run (concat (replicate n request_round)) s) = [] \<and>
         ready_deferred (run (concat (replicate n request_round)) s) = ready_deferred s \<and>
         requestId (run (concat (replicate n request_round)) s) = (js_increment ^^ n) (requestId s) \<and>
         allocated_ids (run (concat (replicate n request_round)) s)
           = allocated_ids s @ map (\<lambda>k. Num ((js_increment ^^ k) (requestId s))) [0..<n]"
proof (induction n)
  case 0
  from assms show ?case by (simp add: run_def)
next
  case (Suc n)
  let ?u = "run (concat (replicate n request_round)) s"
  have split: "concat (replicate (Suc n) request_round) = concat (replicate n request_round) @ request_round"
    by (rule concat_replicate_Suc)
  from Suc assms have u: "tasks ?u = []" "ready_deferred ?u \<noteq> Pending" by simp_all
  from request_round_effect [OF u] Suc show ?case
    unfolding split run_append by simp
qed

lemma js_increment_funpow: "(js_increment ^^ k) 1 = min (2 ^ 53) (1 + int k)"
  by (induction k) (auto simp: js_increment_def min_def)

text \<open>
  Claim C8, as the source has it. As long as the counter is below \<open>2^53\<close>, the ids
  allocated on a connection are \<open>1, 2, 3, \<dots>\<close> in the order of allocation, whatever the
  events and however the callers interleave: the next \<^verbatim>\<open>sendRequest\<close> allocates the
  counter's value, greater than every id allocated before, and the ids are distinct.
\<close>

theorem C8_ids_increase_below_2_53:
  assumes "requestId (run es (new_Connection ks K)) < 2 ^ 53"
  shows "allocated_ids (run es (new_Connection ks K))
           = map Num [1..requestId (run es (new_Connection ks K)) - 1] \<and>
         allocated_ids (sendRequest_resumed type target ps (run es (new_Connection ks K)))
           = map Num [1..requestId (run es (new_Connection ks K))] \<and>
         distinct (allocated_ids (sendRequest_resumed type target ps (run es (new_Connection ks K))))"
proof -
  let ?t = "run es (new_Connection ks K)"
  have io: "ids_in_order ?t" by (simp add: ids_in_order_run ids_in_order_new)
  with assms have a: "allocated_ids ?t = map Num [1..requestId ?t - 1]" and p: "1 \<le> requestId ?t"
    by (simp_all add: ids_in_order_def)
  have b: "allocated_ids (sendRequest_resumed type target ps ?t) = map Num [1..requestId ?t]"
    using a p by (simp add: ids_sendRequest_resumed upto_snoc)
  have "distinct (map Num [1..requestId ?t])"
    by (simp add: distinct_map inj_on_def)
  with a b show ?thesis by simp
qed

theorem C8_ids_increase_below_2_53_witness:
  "requestId (run (Call_ready # request_round @ request_round) (new_Connection alice ''K'')) < 2 ^ 53 \<and>
   allocated_ids (run (Call_ready # request_round @ request_round) (new_Connection alice ''K''))
     = [Num 1, Num 2] \<and>
   allocated_ids (sendRequest_resumed ''open'' None []
       (run (Call_ready # request_round @ request_round) (new_Connection alice ''K'')))
     = [Num 1, Num 2, Num 3]"
proof -
  let ?t = "run (Call_ready # request_round @ request_round) (new_Connection alice ''K'')"
  have r: "requestId ?t = 3" by code_simp
  have u: "[1..2] = [1, 2::int]" "[1..3] = [1, 2, 3::int]" by code_simp+
  show ?thesis
    using C8_ids_increase_below_2_53 [of "Call_ready # request_round @ request_round" alice "''K''" "''open''" None "[]"]
    by (simp add: r u)
qed

text \<open>
  The claim as it was stated, for every call in the lifetime of a connection, fails once
  the counter has reached \<open>2^53\<close>, where \<^verbatim>\<open>this.requestId++\<close> leaves it: after
  \<open>2^53 + 1\<close> requests on a new connection an id has been allocated twice.
\<close>

theorem C8_ids_repeat_at_2_53:
  "\<not> distinct (allocated_ids
       (run (Call_ready # concat (replicate (2 ^ 53 + 1) request_round)) (new_Connection alice ''K'')))"
proof -
  let ?s = "run [Call_ready] (new_Connection alice ''K'')"
  let ?f = "\<lambda>k. Num ((js_increment ^^ k) 1)"
  have s: "tasks ?s = []" "ready_deferred ?s \<noteq> Pending" "requestId ?s = 1" "allocated_ids ?s = []"
    by code_simp+
  have run: "run (Call_ready # concat (replicate (2 ^ 53 + 1) request_round)) (new_Connection alice ''K'')
        = run (concat (replicate (2 ^ 53 + 1) request_round)) ?s"
    by (simp add: run_def)
  have ids: "allocated_ids (run (concat (replicate (2 ^ 53 + 1) request_round)) ?s)
        = map ?f [0..<2 ^ 53 + 1]"
    using request_rounds_effect [OF s(1,2), of "2 ^ 53 + 1"] by (simp only: s append_Nil)
  have "?f (2 ^ 53 - 1) = ?f (2 ^ 53)"
    by (simp add: js_increment_funpow)
  moreover have "(2 ^ 53 - 1 :: nat) \<in> set [0..<2 ^ 53 + 1]" "(2 ^ 53 :: nat) \<in> set [0..<2 ^ 53 + 1]"
    "(2 ^ 53 - 1 :: nat) \<noteq> 2 ^ 53"
    by simp_all
  ultimately have "\<not> inj_on ?f (set [0..<2 ^ 53 + 1])"
    unfolding inj_on_def by blast
  then have "\<not> distinct (map ?f [0..<2 ^ 53 + 1])"
    by (simp add: distinct_map)
  then show ?thesis unfolding run ids .
qed

subsection \<open>The key caches\<close>

text \<open>
  The keys of a cache, and how encryption, decryption and each step of the event loop
  change them: a completed encryption or decryption only adds keys, and the cleanup at
  the start of \<^verbatim>\<open>handleMessage\<close> is the only place where a cache is reset.
\<close>

lemma length_Object_keys: "length (Object_keys c) = card (set (Object_keys c))"
  by (simp add: Object_keys_def length_remdups_card_conv)

lemma Object_keys_update: "set (Object_keys (AList.update k v c)) = insert k (set (Object_keys c))"
  using dom_update [of k v c] by (simp add: Object_keys_def)

lemma Object_keys_Nil: "Object_keys [] = []"
  by (simp add: Object_keys_def)

lemma store_keys: "set (Object_keys (store es c)) = set (map fst es) \<union> set (Object_keys c)"
  by (induction es c rule: store.induct) (simp_all add: Object_keys_update)

lemma caches_encryption_completed:
  "set (Object_keys (encryptionKeyCache s)) \<subseteq> set (Object_keys (encryptionKeyCache (encryption_completed w s)))"
  "decryptionKeyCache (encryption_completed w s) = decryptionKeyCache s"
  by (simp_all add: encryption_completed_def store_keys)

lemma caches_decryption_completed:
  "set (Object_keys (decryptionKeyCache s)) \<subseteq> set (Object_keys (decryptionKeyCache (decryption_completed w s)))"
  "encryptionKeyCache (decryption_completed w s) = encryptionKeyCache s"
  by (simp_all add: decryption_completed_def store_keys)

lemma caches_respond_error:
  "encryptionKeyCache (respond_error i orig e s) = encryptionKeyCache s"
  "decryptionKeyCache (respond_error i orig e s) = decryptionKeyCache s"
  by (simp_all add: respond_error_def encrypt_with_def suspend_def Let_def split: prod.splits)

lemma caches_handleMessage_decrypted:
  "encryptionKeyCache (handleMessage_decrypted b req d s) = encryptionKeyCache s"
  "decryptionKeyCache (handleMessage_decrypted b req d s) = decryptionKeyCache s"
  by (induction b req d s rule: handleMessage_decrypted.induct)
     (auto simp: op_defs Let_def split: option.splits outcome.splits)

lemma caches_written:
  "encryptionKeyCache (send_encrypted r s) = encryptionKeyCache s"
  "decryptionKeyCache (send_encrypted r s) = decryptionKeyCache s"
  "encryptionKeyCache (response_encrypted i orig r s) = encryptionKeyCache s"
  "decryptionKeyCache (response_encrypted i orig r s) = decryptionKeyCache s"
  "encryptionKeyCache (responseError_encrypted r s) = encryptionKeyCache s"
  "decryptionKeyCache (responseError_encrypted r s) = decryptionKeyCache s"
  by (cases r; simp add: send_encrypted_def response_encrypted_def responseError_encrypted_def
        write_message_def console_error_def caches_respond_error)+

lemma caches_continue:
  "set (Object_keys (encryptionKeyCache s)) \<subseteq> set (Object_keys (encryptionKeyCache (continue t s))) \<and>
   set (Object_keys (decryptionKeyCache s)) \<subseteq> set (Object_keys (decryptionKeyCache (continue t s)))"
proof (cases t)
  case (SendRequest_ready ty tg ps)
  then show ?thesis
    by (simp add: sendRequest_resumed_def encrypt_with_def suspend_def Let_def split: prod.splits)
next
  case (SendNotification_ready ty tg ps)
  then show ?thesis
    by (simp add: sendNotification_resumed_def encrypt_with_def suspend_def Let_def split: prod.splits)
next
  case (SendBroadcast_ready ty ps)
  then show ?thesis
    by (simp add: sendBroadcast_resumed_def encrypt_with_def suspend_def Let_def split: prod.splits)
next
  case (Send_encrypted r w)
  then show ?thesis by (simp add: caches_written caches_encryption_completed)
next
  case (HandleMessage_decrypted b req d w)
  then show ?thesis by (simp add: caches_handleMessage_decrypted caches_decryption_completed)
next
  case (Request_handled i orig out)
  then show ?thesis by (cases out) (simp_all add: suspend_def caches_respond_error)
next
  case (Response_ready i orig v)
  then show ?thesis
    by (simp add: response_ready_def encrypt_with_def suspend_def Let_def split: prod.splits)
next
  case (Response_encrypted i orig r w)
  then show ?thesis by (simp add: caches_written caches_encryption_completed)
next
  case (ResponseError_encrypted r w)
  then show ?thesis by (simp add: caches_written caches_encryption_completed)
qed

lemma caches_resume:
  "set (Object_keys (encryptionKeyCache s)) \<subseteq> set (Object_keys (encryptionKeyCache (resume n s)))"
  "set (Object_keys (decryptionKeyCache s)) \<subseteq> set (Object_keys (decryptionKeyCache (resume n s)))"
  using caches_continue [of "s\<lparr>tasks := take n (tasks s) @ drop (Suc n) (tasks s)\<rparr>" "tasks s ! n"]
  by (simp_all add: resume_def)

lemma caches_handleMessage:
  "encryptionKeyCache (handleMessage b s) = encryptionKeyCache (cleanupCaches s)"
  "decryptionKeyCache (handleMessage b s) = decryptionKeyCache (cleanupCaches s)"
  by (simp_all add: handleMessage_def suspend_def Let_def split: prod.splits)

lemma cleanupCaches_caches:
  "encryptionKeyCache (cleanupCaches s) =
     (if getPublicKeysLength s + maxCacheSize s < length (Object_keys (encryptionKeyCache s))
      then [] else encryptionKeyCache s)"
  "decryptionKeyCache (cleanupCaches s) =
     (if getPublicKeysLength s + maxCacheSize s < length (Object_keys (decryptionKeyCache s))
      then [] else decryptionKeyCache s)"
  by (simp_all add: cleanupCaches_def Let_def)

text \<open>
  An inbound message whose decryption completes before anything else happens, on a
  connection with no continuation waiting.
\<close>

lemma cleanupCaches_frame:
  "tasks (cleanupCaches s) = tasks s" "requestMap (cleanupCaches s) = requestMap s"
  "deferreds (cleanupCaches s) = deferreds s" "timers (cleanupCaches s) = timers s"
  "transport (cleanupCaches s) = transport s" "keys (cleanupCaches s) = keys s"
  "getPublicKeysLength (cleanupCaches s) = getPublicKeysLength s"
  "maxCacheSize (cleanupCaches s) = maxCacheSize s"
  by (simp_all add: cleanupCaches_def Let_def)

lemma receive_then_resume:
  assumes "Encryption_decrypt b (privateKey (keys s)) (decryptionKeyCache (cleanupCaches s)) = (d, es)"
  shows "run [Transport_read b, Resume (length (tasks s))] s
           = handleMessage_decrypted b (lookup_request b s) d
               ((cleanupCaches s)\<lparr>decryptionKeyCache := store es (decryptionKeyCache (cleanupCaches s))\<rparr>)"
proof -
  have l: "lookup_request b (cleanupCaches s) = lookup_request b s"
    by (simp add: lookup_request_def cleanupCaches_frame split: Message.splits)
  have u: "(cleanupCaches s)\<lparr>tasks := tasks s, decryptionKeyCache := c\<rparr>
             = (cleanupCaches s)\<lparr>decryptionKeyCache := c\<rparr>" for c
    by (simp add: cleanupCaches_def Let_def)
  show ?thesis
    using assms
    by (simp add: run_def handleMessage_def resume_def suspend_def Let_def Encoding_decode_def
          decryption_completed_def cleanupCaches_frame l u)
qed

text \<open>
  A run of \<open>n\<close> inbound messages from \<open>n\<close> different origins on a new connection without
  peers, each decrypted before the next arrives: up to \<open>n = 51\<close> no cleanup finds the
  decryption cache above the bound, and the cache holds one entry for each origin.
\<close>

lemma run_snoc: "run (es @ [e]) s = step e (run es s)"
  by (simp add: run_def)

lemma fields_hmd_frame:
  "getPublicKeysLength (handleMessage_decrypted b req d s) = getPublicKeysLength s"
  "maxCacheSize (handleMessage_decrypted b req d s) = maxCacheSize s"
  "keys (handleMessage_decrypted b req d s) = keys s"
  by (induction b req d s rule: handleMessage_decrypted.induct)
     (auto simp: op_defs Let_def split: option.splits outcome.splits)

lemma decrypt_error_from:
  "set (map fst (snd (Encryption_decrypt (error_from n) ''a'' c))) \<union> set (Object_keys c)
     = insert (replicate n CHR ''p'') (set (Object_keys c))"
proof (cases "map_of c (replicate n CHR ''p'')")
  case None
  then show ?thesis
    by (simp add: Encryption_decrypt_def error_from_def fingerprint_def publicOf_def unseal_def)
next
  case (Some K)
  then have "(replicate n CHR ''p'', K) \<in> set c"
    by (rule map_of_SomeD)
  then have "fst (replicate n CHR ''p'', K) \<in> fst ` set c"
    by (rule imageI)
  then have "replicate n CHR ''p'' \<in> set (Object_keys c)"
    by (simp add: Object_keys_def)
  then have "insert (replicate n CHR ''p'') (set (Object_keys c)) = set (Object_keys c)"
    by (rule insert_absorb)
  with Some show ?thesis
    by (simp add: Encryption_decrypt_def error_from_def fingerprint_def publicOf_def)
qed

lemma receive_error_round:
  assumes "keys s = alice" and "tasks s = []"
  shows "tasks (run (receive_error n) s) = []"
    and "keys (run (receive_error n) s) = alice"
    and "getPublicKeysLength (run (receive_error n) s) = getPublicKeysLength s"
    and "maxCacheSize (run (receive_error n) s) = maxCacheSize s"
    and "set (Object_keys (decryptionKeyCache (run (receive_error n) s)))
           = insert (replicate n CHR ''p'') (set (Object_keys (decryptionKeyCache (cleanupCaches s))))"
proof -
  let ?c = "decryptionKeyCache (cleanupCaches s)"
  obtain d es where e: "Encryption_decrypt (error_from n) ''a'' ?c = (d, es)"
    by (cases "Encryption_decrypt (error_from n) ''a'' ?c")
  with assms(1) have e': "Encryption_decrypt (error_from n) (privateKey (keys s)) ?c = (d, es)"
    by (simp add: alice_def)
  have r: "run (receive_error n) s
        = handleMessage_decrypted (error_from n) (lookup_request (error_from n) s) d
            ((cleanupCaches s)\<lparr>decryptionKeyCache := store es ?c\<rparr>)"
    using receive_then_resume [OF e'] assms(2) by (simp add: receive_error_def)
  have d: "d = Inr (sealed (error_from n)) \<or> (\<exists>x. d = Inl x)"
    using e by (auto simp: Encryption_decrypt_def split: option.splits if_splits)
  from d show "tasks (run (receive_error n) s) = []"
    unfolding r using assms(2)
    by (auto simp: error_from_def cleanupCaches_frame console_error_def Let_def kind_of.simps)
  show "keys (run (receive_error n) s) = alice"
    unfolding r by (simp add: fields_hmd_frame cleanupCaches_frame assms(1))
  show "getPublicKeysLength (run (receive_error n) s) = getPublicKeysLength s"
    unfolding r by (simp add: fields_hmd_frame cleanupCaches_frame)
  show "maxCacheSize (run (receive_error n) s) = maxCacheSize s"
    unfolding r by (simp add: fields_hmd_frame cleanupCaches_frame)
  show "set (Object_keys (decryptionKeyCache (run (receive_error n) s)))
           = insert (replicate n CHR ''p'') (set (Object_keys ?c))"
    unfolding r using decrypt_error_from [of n ?c]
    by (simp add: caches_handleMessage_decrypted store_keys e)
qed

lemma inj_replicate: "inj_on (\<lambda>k. replicate k c) A"
  by (rule inj_onI) (metis length_replicate)

lemma receive_errors:
  assumes "n \<le> 51"
  shows "getPublicKeysLength (run (concat (map receive_error [0..<n])) (new_Connection alice K)) = 0 \<and>
         maxCacheSize (run (concat (map receive_error [0..<n])) (new_Connection alice K)) = 50 \<and>
         keys (run (concat (map receive_error [0..<n])) (new_Connection alice K)) = alice \<and>
         tasks (run (concat (map receive_error [0..<n])) (new_Connection alice K)) = [] \<and>
         set (Object_keys (decryptionKeyCache
               (run (concat (map receive_error [0..<n])) (new_Connection alice K))))
           = (\<lambda>k. replicate k CHR ''p'') ` {0..<n}"
  using assms
proof (induction n)
  case 0
  show ?case by (simp add: run_def new_Connection_def Object_keys_Nil)
next
  case (Suc n)
  let ?t = "run (concat (map receive_error [0..<n])) (new_Connection alice K)"
  from Suc have ih: "getPublicKeysLength ?t = 0" "maxCacheSize ?t = 50" "keys ?t = alice" "tasks ?t = []"
    "set (Object_keys (decryptionKeyCache ?t)) = (\<lambda>k. replicate k CHR ''p'') ` {0..<n}"
    by simp_all
  have "length (Object_keys (decryptionKeyCache ?t)) = n"
    by (simp add: length_Object_keys ih(5) card_image inj_replicate)
  with Suc.prems ih have c: "decryptionKeyCache (cleanupCaches ?t) = decryptionKeyCache ?t"
    by (simp add: cleanupCaches_caches)
  have r: "run (concat (map receive_error [0..<Suc n])) (new_Connection alice K)
             = run (receive_error n) ?t"
    by (simp add: run_append)
  show ?case
    unfolding r
    by (simp add: receive_error_round [OF ih(3,4)] ih c atLeast0_lessThan_Suc)
qed

lemma card_replicates: "card ((\<lambda>k. replicate k c) ` {0..<n}) = n"
  by (simp add: card_image inj_replicate)

lemma received_51:
  "getPublicKeysLength (run (concat (map receive_error [0..<51])) (new_Connection alice K)) = 0"
  "maxCacheSize (run (concat (map receive_error [0..<51])) (new_Connection alice K)) = 50"
  "keys (run (concat (map receive_error [0..<51])) (new_Connection alice K)) = alice"
  "set (Object_keys (decryptionKeyCache (run (concat (map receive_error [0..<51])) (new_Connection alice K))))
     = (\<lambda>k. replicate k CHR ''p'') ` {0..<51}"
  "length (Object_keys (decryptionKeyCache (run (concat (map receive_error [0..<51])) (new_Connection alice K)))) = 51"
proof -
  note r = receive_errors [OF order_refl, of K]
  show "getPublicKeysLength (run (concat (map receive_error [0..<51])) (new_Connection alice K)) = 0"
    "maxCacheSize (run (concat (map receive_error [0..<51])) (new_Connection alice K)) = 50"
    "keys (run (concat (map receive_error [0..<51])) (new_Connection alice K)) = alice"
    and k: "set (Object_keys (decryptionKeyCache (run (concat (map receive_error [0..<51])) (new_Connection alice K))))
     = (\<lambda>k. replicate k CHR ''p'') ` {0..<51}"
    using r by blast+
  show "length (Object_keys (decryptionKeyCache (run (concat (map receive_error [0..<51])) (new_Connection alice K)))) = 51"
    unfolding length_Object_keys k by (rule card_replicates)
qed

text \<open>
  Claim C3, as the source has it. \<^verbatim>\<open>cleanupCaches\<close> runs at the start of every inbound
  message, before the decryption is started. A cache that then holds more than
  \<^verbatim>\<open>getPublicKeysLength() + maxCacheSize\<close> entries (\<open>maxCacheSize\<close> is 50) is reset to
  empty in its entirety, a cache within the bound is left as it is; so right after the
  cleanup, and when \<^verbatim>\<open>handleMessage\<close> has started the decryption, each cache is within the
  bound. What the encryptions and decryptions store when they complete is not checked
  before the next inbound message.
\<close>

theorem C3_caches_bounded_after_cleanup:
  "encryptionKeyCache (cleanupCaches s) =
     (if getPublicKeysLength s + maxCacheSize s < length (Object_keys (encryptionKeyCache s))
      then [] else encryptionKeyCache s) \<and>
   decryptionKeyCache (cleanupCaches s) =
     (if getPublicKeysLength s + maxCacheSize s < length (Object_keys (decryptionKeyCache s))
      then [] else decryptionKeyCache s) \<and>
   length (Object_keys (encryptionKeyCache (cleanupCaches s))) \<le> getPublicKeysLength s + maxCacheSize s \<and>
   length (Object_keys (decryptionKeyCache (cleanupCaches s))) \<le> getPublicKeysLength s + maxCacheSize s \<and>
   encryptionKeyCache (step (Transport_read b) s) = encryptionKeyCache (cleanupCaches s) \<and>
   decryptionKeyCache (step (Transport_read b) s) = decryptionKeyCache (cleanupCaches s) \<and>
   length (Object_keys (encryptionKeyCache (step (Transport_read b) s))) \<le> getPublicKeysLength s + maxCacheSize s \<and>
   length (Object_keys (decryptionKeyCache (step (Transport_read b) s))) \<le> getPublicKeysLength s + maxCacheSize s"
proof -
  have e: "length (Object_keys (encryptionKeyCache (cleanupCaches s))) \<le> getPublicKeysLength s + maxCacheSize s"
    and d: "length (Object_keys (decryptionKeyCache (cleanupCaches s))) \<le> getPublicKeysLength s + maxCacheSize s"
    by (simp_all add: cleanupCaches_caches Object_keys_Nil)
  from e d show ?thesis
    by (simp add: caches_handleMessage) (simp add: cleanupCaches_caches)
qed

theorem C3_caches_bounded_after_cleanup_witness:
  "getPublicKeysLength (run (concat (map receive_error [0..<51])) (new_Connection alice ''K''))
     + maxCacheSize (run (concat (map receive_error [0..<51])) (new_Connection alice ''K''))
     < length (Object_keys (decryptionKeyCache
         (run (concat (map receive_error [0..<51])) (new_Connection alice ''K'')))) \<and>
   decryptionKeyCache (step (Transport_read (error_from 1))
       (run (concat (map receive_error [0..<51])) (new_Connection alice ''K''))) = [] \<and>
   length (Object_keys (decryptionKeyCache (step (Transport_read (error_from 1))
       (run (concat (map receive_error [0..<51])) (new_Connection alice ''K''))))) \<le> 50"
  using C3_caches_bounded_after_cleanup
          [of "run (concat (map receive_error [0..<51])) (new_Connection alice ''K'')" "error_from 1"]
  by (simp add: received_51 [of "''K''"] Object_keys_Nil)

text \<open>
  The claim as it was stated, that after any sequence of sends and receives a cache holds
  at most \<open>knownPeerCount + 50\<close> entries, fails: after 51 inbound messages from 51 origins,
  on a connection that knows no peer, the decryption cache holds 51 entries.
\<close>

theorem C3_cache_above_bound_after_receives:
  "getPublicKeysLength (run (concat (map receive_error [0..<51])) (new_Connection alice ''K'')) = 0 \<and>
   maxCacheSize (run (concat (map receive_error [0..<51])) (new_Connection alice ''K'')) = 50 \<and>
   length (Object_keys (decryptionKeyCache
     (run (concat (map receive_error [0..<51])) (new_Connection alice ''K'')))) = 51"
  using received_51(1,2,5) [of "''K''"] by blast

text \<open>
  No bound holds between two checks, because the transport does not wait for
  \<^verbatim>\<open>handleMessage\<close>: on a connection whose subclass sets \<open>maxCacheSize\<close> to 0, three
  messages read before any of their decryptions completes all pass the check, and their
  three entries are stored afterwards.
\<close>

lemma overlapping_receives:
  "decryptionKeyCache (run [Transport_read (error_from 1), Transport_read (error_from 2),
       Transport_read (error_from 3), Resume 0, Resume 0, Resume 0]
       ((new_Connection alice ''K'')\<lparr>maxCacheSize := 0\<rparr>))
     = [(''p'', ''K1''), (''pp'', ''K1''), (''ppp'', ''K1'')]"
  by code_simp

text \<open>
  Claim C2, as the source has it. A change of the known-peer set drops neither cache: the
  class runs nothing when the answers of \<^verbatim>\<open>getPublicKeys\<close> change. In any step of the
  event loop, a key leaves a cache only when the step is an inbound message that finds
  that cache holding more than \<^verbatim>\<open>getPublicKeysLength() + maxCacheSize\<close> entries; then
  the whole cache is dropped (the decryption of that message has not stored its entry
  yet). Within the bound, the entries of peers that left or were rekeyed stay.
\<close>

theorem C2_entries_leave_only_above_bound:
  "(k \<in> set (Object_keys (encryptionKeyCache s)) \<and> k \<notin> set (Object_keys (encryptionKeyCache (step e s))) \<longrightarrow>
      (\<exists>b. e = Transport_read b) \<and>
      getPublicKeysLength s + maxCacheSize s < length (Object_keys (encryptionKeyCache s))) \<and>
   (k \<in> set (Object_keys (decryptionKeyCache s)) \<and> k \<notin> set (Object_keys (decryptionKeyCache (step e s))) \<longrightarrow>
      (\<exists>b. e = Transport_read b) \<and>
      getPublicKeysLength s + maxCacheSize s < length (Object_keys (decryptionKeyCache s))) \<and>
   encryptionKeyCache (step (Peers f ks n) s) = encryptionKeyCache s \<and>
   decryptionKeyCache (step (Peers f ks n) s) = decryptionKeyCache s \<and>
   encryptionKeyCache (step (Transport_read m) s) =
     (if getPublicKeysLength s + maxCacheSize s < length (Object_keys (encryptionKeyCache s))
      then [] else encryptionKeyCache s) \<and>
   (getPublicKeysLength s + maxCacheSize s < length (Object_keys (decryptionKeyCache s)) \<longrightarrow>
      set (Object_keys (decryptionKeyCache (step (Transport_read m) s))) \<subseteq> {origin_of (sealed m)}) \<and>
   decryptionKeyCache (step (Transport_read m) s) =
     (if getPublicKeysLength s + maxCacheSize s < length (Object_keys (decryptionKeyCache s))
      then [] else decryptionKeyCache s)"
proof -
  have leave: "(k \<in> set (Object_keys (encryptionKeyCache s)) \<and>
        k \<notin> set (Object_keys (encryptionKeyCache (step e s))) \<longrightarrow>
      (\<exists>b. e = Transport_read b) \<and>
      getPublicKeysLength s + maxCacheSize s < length (Object_keys (encryptionKeyCache s))) \<and>
   (k \<in> set (Object_keys (decryptionKeyCache s)) \<and>
        k \<notin> set (Object_keys (decryptionKeyCache (step e s))) \<longrightarrow>
      (\<exists>b. e = Transport_read b) \<and>
      getPublicKeysLength s + maxCacheSize s < length (Object_keys (decryptionKeyCache s)))"
  proof (cases e)
    case (Transport_read b)
    show ?thesis
      unfolding Transport_read
      by (auto simp: caches_handleMessage cleanupCaches_caches split: if_splits)
  next
    case (Resume n)
    show ?thesis
      unfolding Resume using caches_resume [where s=s and n=n] by auto
  qed (auto simp: op_defs Let_def)
  have peers: "encryptionKeyCache (step (Peers f ks n) s) = encryptionKeyCache s"
    "decryptionKeyCache (step (Peers f ks n) s) = decryptionKeyCache s"
    by simp_all
  have enc: "encryptionKeyCache (step (Transport_read m) s) =
     (if getPublicKeysLength s + maxCacheSize s < length (Object_keys (encryptionKeyCache s))
      then [] else encryptionKeyCache s)"
    by (simp add: caches_handleMessage(1) cleanupCaches_caches)
  have dec: "getPublicKeysLength s + maxCacheSize s < length (Object_keys (decryptionKeyCache s)) \<longrightarrow>
      set (Object_keys (decryptionKeyCache (step (Transport_read m) s))) \<subseteq> {origin_of (sealed m)}"
    by (simp add: caches_handleMessage cleanupCaches_caches Object_keys_Nil)
  have dec': "decryptionKeyCache (step (Transport_read m) s) =
     (if getPublicKeysLength s + maxCacheSize s < length (Object_keys (decryptionKeyCache s))
      then [] else decryptionKeyCache s)"
    by (simp add: caches_handleMessage(2) cleanupCaches_caches)
  from leave [THEN conjunct1] leave [THEN conjunct2] peers enc dec dec' show ?thesis
    by (intro conjI)
qed

theorem C2_entries_leave_only_above_bound_witness:
  "[] \<in> set (Object_keys (decryptionKeyCache
           (run (concat (map receive_error [0..<51])) (new_Connection alice ''K'')))) \<and>
   [] \<notin> set (Object_keys (decryptionKeyCache (step (Transport_read (error_from 1))
           (run (concat (map receive_error [0..<51])) (new_Connection alice ''K''))))) \<and>
   getPublicKeysLength (run (concat (map receive_error [0..<51])) (new_Connection alice ''K''))
     + maxCacheSize (run (concat (map receive_error [0..<51])) (new_Connection alice ''K''))
     < length (Object_keys (decryptionKeyCache
           (run (concat (map receive_error [0..<51])) (new_Connection alice ''K''))))"
proof -
  let ?t = "run (concat (map receive_error [0..<51])) (new_Connection alice ''K'')"
  note t = received_51 [of "''K''"]
  have "[] = replicate 0 CHR ''p''" "(0::nat) \<in> {0..<51}" by simp_all
  then have i: "[] \<in> set (Object_keys (decryptionKeyCache ?t))"
    unfolding t(4) by (rule image_eqI)
  have "decryptionKeyCache (cleanupCaches ?t) = []"
    by (simp add: cleanupCaches_caches t(1,2,5))
  then have o: "[] \<notin> set (Object_keys (decryptionKeyCache (step (Transport_read (error_from 1)) ?t)))"
    by (simp add: caches_handleMessage Object_keys_Nil)
  show ?thesis
    using C2_entries_leave_only_above_bound [where k="[]" and s="?t" and e="Transport_read (error_from 1)"] i o
    by blast
qed

text \<open>
  The claim as it was stated, that both caches are dropped whenever a peer joins or
  leaves, fails: a broadcast to one peer and an inbound message fill the caches, a second
  peer joins, another message arrives, and both caches still hold the entries from
  before the join.
\<close>

theorem C2_caches_kept_when_a_peer_joins:
  "encryptionKeyCache (run [Call_ready, Peers key_of_peer [''pub:bob''] 1,
       Call_sendBroadcast ''note'' [''x''], Resume 0, Resume 0, Transport_read (error_from 1), Resume 0,
       Peers key_of_peer [''pub:bob'', ''pub:carol''] 2, Transport_read (error_from 2), Resume 0]
       (new_Connection alice ''K''))
     = [(''pub:bob'', Seal ''pub:bob'' ''K'')] \<and>
   decryptionKeyCache (run [Call_ready, Peers key_of_peer [''pub:bob''] 1,
       Call_sendBroadcast ''note'' [''x''], Resume 0, Resume 0, Transport_read (error_from 1), Resume 0,
       Peers key_of_peer [''pub:bob'', ''pub:carol''] 2, Transport_read (error_from 2), Resume 0]
       (new_Connection alice ''K''))
     = [(''p'', ''K1''), (''pp'', ''K1'')]"
  by code_simp

subsection \<open>The ready barrier\<close>

text \<open>
  Claim C5, evaluated where the source departs from it. On a connection on which
  \<^verbatim>\<open>ready()\<close> has not been called, a request arrives whose handler throws: the catch
  branch encrypts and writes the \<^verbatim>\<open>ResponseError\<close> without awaiting the barrier, so a
  message is on the transport while \<^verbatim>\<open>_ready\<close> is still pending. With a handler that
  returns, the same run writes nothing: the \<^verbatim>\<open>Response\<close> waits at
  \<^verbatim>\<open>await this._ready.promise\<close>.
\<close>

theorem C5_error_response_before_ready:
  "ready_deferred (run [Peers key_of_peer [''pub:bob''] 1, Call_onRequest ''open'' failing_handler,
       Transport_read (request_to_alice ''open''), Resume 0, Resume 0, Resume 0]
       (new_Connection alice ''K'')) = Pending \<and>
   written (transport (run [Peers key_of_peer [''pub:bob''] 1, Call_onRequest ''open'' failing_handler,
       Transport_read (request_to_alice ''open''), Resume 0, Resume 0, Resume 0]
       (new_Connection alice ''K'')))
     = [Binary [(''pub:bob'', Seal ''pub:bob'' ''K'')] ''K''
          (ResponseErrorMessage (Num 7) [] ''Error: refused'')] \<and>
   written (transport (run [Peers key_of_peer [''pub:bob''] 1, Call_onRequest ''open'' echo_handler,
       Transport_read (request_to_alice ''open''), Resume 0, Resume 0, Resume 0]
       (new_Connection alice ''K''))) = [] \<and>
   tasks (run [Peers key_of_peer [''pub:bob''] 1, Call_onRequest ''open'' echo_handler,
       Transport_read (request_to_alice ''open''), Resume 0, Resume 0, Resume 0]
       (new_Connection alice ''K'')) = [Response_ready (Num 7) ''bob'' ''x'']"
  by code_simp

subsection \<open>Requests, responses and timeouts\<close>









































end
